theory Spec2Isabelle
  imports Main "HOL-Library.Word"
begin

unbundle bit_operations_syntax

section \<open>Solidity value types\<close>

text \<open>
  The contract \<open>ZigFHEBridge\<close> works on \<open>uint256\<close>, \<open>bytes32\<close>, \<open>address\<close> and on
  \<open>euint32\<close>, the encrypted-integer handle of the FHE library (a user-defined value
  type over \<open>bytes32\<close>). Dynamic \<open>bytes\<close> are lists of octets.
\<close>

type_synonym uint256 = "256 word"
type_synonym bytes32 = "256 word"
type_synonym address = "160 word"
type_synonym euint32 = "256 word"
type_synonym bytes = "8 word list"

text \<open>Big-endian octets of a value type, as \<open>abi.encodePacked\<close> lays it out.\<close>

definition be_bytes :: "'a::len word \<Rightarrow> bytes" where
  "be_bytes w = map (\<lambda>i. ucast (drop_bit (8 * i) w)) (rev [0..<LENGTH('a) div 8])"

text \<open>The 32-octet word at the head of a byte string, read big-endian.\<close>

definition word_of_be :: "bytes \<Rightarrow> uint256" where
  "word_of_be bs = foldl (\<lambda>acc b. push_bit 8 acc OR ucast b) 0 bs"

text \<open>
  \<open>abi.decode(cleartexts, (uint32))\<close>: the decoder reverts when fewer than 32 octets are
  supplied and when the head word does not fit 32 bits; trailing octets are ignored.
\<close>

definition abi_decode_uint32 :: "bytes \<Rightarrow> 32 word option" where
  "abi_decode_uint32 bs =
     (if length bs < 32 then None
      else let v = word_of_be (take 32 bs)
           in if v < 2 ^ 32 then Some (ucast v) else None)"

text \<open>\<open>abi.encodePacked(bindingId, block.timestamp, msg.sender)\<close>\<close>

definition encodePacked_binding :: "uint256 \<Rightarrow> uint256 \<Rightarrow> address \<Rightarrow> bytes" where
  "encodePacked_binding bId now sender = be_bytes bId @ be_bytes now @ be_bytes sender"

text \<open>\<open>abi.encodePacked("count", bindingId, block.timestamp)\<close>\<close>

definition encodePacked_count :: "uint256 \<Rightarrow> uint256 \<Rightarrow> bytes" where
  "encodePacked_count bId now =
     map (\<lambda>c. of_nat (of_char c)) ''count'' @ be_bytes bId @ be_bytes now"

section \<open>Storage\<close>

record BindingRecord =
  rec_id :: uint256
  uploader :: address
  abiHash :: bytes32
  metadataHash :: bytes32
  encryptedSignature :: euint32
  rec_createdAt :: uint256

record DecryptTask =
  task_id :: uint256
  bindingId :: uint256
  requester :: address
  completed :: bool
  task_createdAt :: uint256

datatype event =
    BindingRegistered uint256 address
  | DecryptionRequested uint256 uint256
  | DecryptionCompleted uint256 uint256

datatype selector = handleDecryption_selector | handleCountDecryption_selector

text \<open>
  The four mappings and the counter of the contract, the log of emitted events, and the
  log of requests handed to the decryption oracle by \<open>FHE.requestDecryption\<close>.
  A Solidity mapping is total: a key never written reads as the zero value.
\<close>

record contract =
  bindingCount :: uint256
  bindings :: "uint256 \<Rightarrow> BindingRecord"
  tasks :: "uint256 \<Rightarrow> DecryptTask"
  abiHashToBinding :: "bytes32 \<Rightarrow> uint256"
  requestToTaskId :: "uint256 \<Rightarrow> uint256"
  emitted :: "event list"
  oracleRequests :: "(bytes32 list \<times> selector) list"

definition zero_binding :: BindingRecord where
  "zero_binding = \<lparr>rec_id = 0, uploader = 0, abiHash = 0, metadataHash = 0,
                    encryptedSignature = 0, rec_createdAt = 0\<rparr>"

definition zero_task :: DecryptTask where
  "zero_task = \<lparr>task_id = 0, bindingId = 0, requester = 0, completed = False,
                 task_createdAt = 0\<rparr>"

definition deployed :: contract where
  "deployed = \<lparr>bindingCount = 0, bindings = (\<lambda>_. zero_binding), tasks = (\<lambda>_. zero_task),
                abiHashToBinding = (\<lambda>_. 0), requestToTaskId = (\<lambda>_. 0),
                emitted = [], oracleRequests = []\<rparr>"

section \<open>External collaborators\<close>

text \<open>
  \<open>keccak256\<close> is a builtin and \<open>FHE.checkSignatures\<close> a library function; neither is
  part of the contract. Both are parameters of the model. \<open>checkSignatures\<close> reverts on
  a bad proof, which is the value \<open>False\<close> here. The request identifier that
  \<open>FHE.requestDecryption\<close> returns is chosen by the oracle and is an argument of the
  two request functions; the library call itself is taken to succeed, and what it hands to
  the oracle is appended to \<open>oracleRequests\<close>.
\<close>

record ext =
  keccak256 :: "bytes \<Rightarrow> bytes32"
  checkSignatures :: "uint256 \<Rightarrow> bytes \<Rightarrow> bytes \<Rightarrow> bool"

text \<open>
  Reasons for a revert: the four \<open>require\<close> messages of the contract
  ("Invalid binding", "Unknown request", "Already completed", "Not found"), a failed
  signature check, a failed \<open>abi.decode\<close>, and the overflow panic of checked arithmetic.
\<close>

datatype error =
    InvalidBinding
  | UnknownRequest
  | AlreadyCompleted
  | NotFound
  | InvalidSignatures
  | DecodeFailure
  | ArithmeticOverflow

section \<open>The functions of the contract\<close>

definition registerBinding ::
  "address \<Rightarrow> uint256 \<Rightarrow> bytes32 \<Rightarrow> bytes32 \<Rightarrow> euint32 \<Rightarrow> contract \<Rightarrow> error + (uint256 \<times> contract)"
where
  "registerBinding sender now abi meta enc s =
     (if unat (bindingCount s) + 1 \<ge> 2 ^ 256 then Inl ArithmeticOverflow
      else
        let bid = bindingCount s + 1;
            s1 = s\<lparr>bindingCount := bid\<rparr>;
            s2 = s1\<lparr>bindings := (bindings s1)(bid :=
                   \<lparr>rec_id = bid, uploader = sender, abiHash = abi, metadataHash = meta,
                    encryptedSignature = enc, rec_createdAt = now\<rparr>)\<rparr>;
            s3 = s2\<lparr>abiHashToBinding := (abiHashToBinding s2)(abi := bid)\<rparr>
        in Inr (bid, s3\<lparr>emitted := emitted s3 @ [BindingRegistered bid sender]\<rparr>))"

definition requestBindingDecryption ::
  "ext \<Rightarrow> address \<Rightarrow> uint256 \<Rightarrow> uint256 \<Rightarrow> uint256 \<Rightarrow> contract \<Rightarrow> error + (uint256 \<times> contract)"
where
  "requestBindingDecryption e sender now reqId bId s =
     (let r = bindings s bId in
      if rec_id r = 0 then Inl InvalidBinding
      else
        let taskId = keccak256 e (encodePacked_binding bId now sender);
            s1 = s\<lparr>tasks := (tasks s)(taskId :=
                   \<lparr>task_id = taskId, bindingId = bId, requester = sender,
                    completed = False, task_createdAt = now\<rparr>)\<rparr>;
            ciphertexts = [encryptedSignature (bindings s1 bId)];
            s2 = s1\<lparr>oracleRequests :=
                   oracleRequests s1 @ [(ciphertexts, handleDecryption_selector)]\<rparr>;
            s3 = s2\<lparr>requestToTaskId := (requestToTaskId s2)(reqId := taskId)\<rparr>
        in Inr (taskId, s3\<lparr>emitted := emitted s3 @ [DecryptionRequested taskId bId]\<rparr>))"

definition handleDecryption ::
  "ext \<Rightarrow> uint256 \<Rightarrow> bytes \<Rightarrow> bytes \<Rightarrow> contract \<Rightarrow> error + contract"
where
  "handleDecryption e requestId cleartexts prf s =
     (let taskId = requestToTaskId s requestId in
      if taskId = 0 then Inl UnknownRequest
      else
        let t = tasks s taskId in
        if completed t then Inl AlreadyCompleted
        else if \<not> checkSignatures e requestId cleartexts prf then Inl InvalidSignatures
        else
          let s1 = s\<lparr>tasks := (tasks s)(taskId := t\<lparr>completed := True\<rparr>)\<rparr>
          in Inr (s1\<lparr>emitted :=
                     emitted s1 @ [DecryptionCompleted taskId (bindingId (tasks s1 taskId))]\<rparr>))"

definition lookupBindingByAbi :: "contract \<Rightarrow> bytes32 \<Rightarrow> uint256" where
  "lookupBindingByAbi s abi = abiHashToBinding s abi"

definition getBinding ::
  "contract \<Rightarrow> uint256 \<Rightarrow> address \<times> bytes32 \<times> bytes32 \<times> euint32 \<times> uint256"
where
  "getBinding s bid =
     (let b = bindings s bid
      in (uploader b, abiHash b, metadataHash b, encryptedSignature b, rec_createdAt b))"

definition isTaskCompleted :: "contract \<Rightarrow> uint256 \<Rightarrow> bool" where
  "isTaskCompleted s taskId = completed (tasks s taskId)"

definition submitExternalEncryptedCount ::
  "address \<Rightarrow> uint256 \<Rightarrow> euint32 \<Rightarrow> contract \<Rightarrow> error + (uint256 \<times> contract)"
where
  "submitExternalEncryptedCount sender now cnt s =
     (if unat (bindingCount s) + 1 \<ge> 2 ^ 256 then Inl ArithmeticOverflow
      else
        let bid = bindingCount s + 1;
            s1 = s\<lparr>bindingCount := bid\<rparr>;
            s2 = s1\<lparr>bindings := (bindings s1)(bid :=
                   \<lparr>rec_id = bid, uploader = sender, abiHash = 0, metadataHash = 0,
                    encryptedSignature = cnt, rec_createdAt = now\<rparr>)\<rparr>
        in Inr (bid, s2\<lparr>emitted := emitted s2 @ [BindingRegistered bid sender]\<rparr>))"

definition requestCountDecryption ::
  "ext \<Rightarrow> address \<Rightarrow> uint256 \<Rightarrow> uint256 \<Rightarrow> uint256 \<Rightarrow> contract \<Rightarrow> error + (uint256 \<times> contract)"
where
  "requestCountDecryption e sender now reqId bId s =
     (let r = bindings s bId in
      if rec_id r = 0 then Inl NotFound
      else
        let ciphertexts = [encryptedSignature r];
            s1 = s\<lparr>oracleRequests :=
                   oracleRequests s @ [(ciphertexts, handleCountDecryption_selector)]\<rparr>;
            taskId = keccak256 e (encodePacked_count bId now);
            s2 = s1\<lparr>requestToTaskId := (requestToTaskId s1)(reqId := taskId)\<rparr>;
            s3 = s2\<lparr>tasks := (tasks s2)(taskId :=
                   \<lparr>task_id = taskId, bindingId = bId, requester = sender,
                    completed = False, task_createdAt = now\<rparr>)\<rparr>
        in Inr (taskId, s3\<lparr>emitted := emitted s3 @ [DecryptionRequested taskId bId]\<rparr>))"

definition handleCountDecryption ::
  "ext \<Rightarrow> uint256 \<Rightarrow> bytes \<Rightarrow> bytes \<Rightarrow> contract \<Rightarrow> error + contract"
where
  "handleCountDecryption e requestId cleartexts prf s =
     (let taskId = requestToTaskId s requestId in
      if taskId = 0 then Inl UnknownRequest
      else
        let t = tasks s taskId in
        if completed t then Inl AlreadyCompleted
        else if \<not> checkSignatures e requestId cleartexts prf then Inl InvalidSignatures
        else
          case abi_decode_uint32 cleartexts of
            None \<Rightarrow> Inl DecodeFailure
          | Some decoded \<Rightarrow>
              let s1 = s\<lparr>tasks := (tasks s)(taskId := t\<lparr>completed := True\<rparr>)\<rparr>
              in Inr (s1\<lparr>emitted :=
                         emitted s1 @ [DecryptionCompleted taskId (bindingId (tasks s1 taskId))]\<rparr>))"

text \<open>\<open>receive\<close> and \<open>fallback\<close> accept ether and touch no storage of the contract.\<close>

definition receive_ether :: "contract \<Rightarrow> error + contract" where
  "receive_ether s = Inr s"

definition fallback :: "contract \<Rightarrow> error + contract" where
  "fallback s = Inr s"

section \<open>Transactions\<close>

text \<open>
  A call from outside carries the sender and the block timestamp where the function
  reads them, and for the two request functions the identifier the oracle answers with.
  A call that reverts leaves the storage and both logs as they were.
\<close>

datatype call =
    RegisterBinding address uint256 bytes32 bytes32 euint32
  | RequestBindingDecryption address uint256 uint256 uint256
  | HandleDecryption uint256 bytes bytes
  | SubmitExternalEncryptedCount address uint256 euint32
  | RequestCountDecryption address uint256 uint256 uint256
  | HandleCountDecryption uint256 bytes bytes
  | Receive
  | Fallback

datatype outcome = Reverted error | Returned uint256 | Done

definition returning :: "contract \<Rightarrow> error + (uint256 \<times> contract) \<Rightarrow> contract \<times> outcome" where
  "returning s r = (case r of Inl err \<Rightarrow> (s, Reverted err) | Inr (v, s') \<Rightarrow> (s', Returned v))"

definition finishing :: "contract \<Rightarrow> error + contract \<Rightarrow> contract \<times> outcome" where
  "finishing s r = (case r of Inl err \<Rightarrow> (s, Reverted err) | Inr s' \<Rightarrow> (s', Done))"

fun transact :: "ext \<Rightarrow> contract \<Rightarrow> call \<Rightarrow> contract \<times> outcome" where
  "transact e s (RegisterBinding sender now abi meta enc) =
     returning s (registerBinding sender now abi meta enc s)"
| "transact e s (RequestBindingDecryption sender now reqId bId) =
     returning s (requestBindingDecryption e sender now reqId bId s)"
| "transact e s (HandleDecryption requestId cleartexts prf) =
     finishing s (handleDecryption e requestId cleartexts prf s)"
| "transact e s (SubmitExternalEncryptedCount sender now cnt) =
     returning s (submitExternalEncryptedCount sender now cnt s)"
| "transact e s (RequestCountDecryption sender now reqId bId) =
     returning s (requestCountDecryption e sender now reqId bId s)"
| "transact e s (HandleCountDecryption requestId cleartexts prf) =
     finishing s (handleCountDecryption e requestId cleartexts prf s)"
| "transact e s Receive = finishing s (receive_ether s)"
| "transact e s Fallback = finishing s (fallback s)"

text \<open>The storage after a sequence of calls, and the outcome of each call of it.\<close>

fun exec_all :: "ext \<Rightarrow> contract \<Rightarrow> call list \<Rightarrow> contract" where
  "exec_all e s [] = s"
| "exec_all e s (c # cs) = exec_all e (fst (transact e s c)) cs"

fun trace :: "ext \<Rightarrow> contract \<Rightarrow> call list \<Rightarrow> (call \<times> outcome) list" where
  "trace e s [] = []"
| "trace e s (c # cs) = (c, snd (transact e s c)) # trace e (fst (transact e s c)) cs"

section \<open>What a history of calls created\<close>

text \<open>The completion callbacks for a request identifier.\<close>

fun completes :: "uint256 \<Rightarrow> call \<Rightarrow> bool" where
  "completes r (HandleDecryption requestId cleartexts prf) = (requestId = r)"
| "completes r (HandleCountDecryption requestId cleartexts prf) = (requestId = r)"
| "completes r c = False"

text \<open>The decryption requests.\<close>

fun requests :: "call \<Rightarrow> bool" where
  "requests (RequestBindingDecryption sender now reqId bId) = True"
| "requests (RequestCountDecryption sender now reqId bId) = True"
| "requests c = False"

text \<open>The id a successful \<open>registerBinding\<close> with content hash \<open>h\<close> returned.\<close>

fun registered_id :: "bytes32 \<Rightarrow> call \<times> outcome \<Rightarrow> uint256 list" where
  "registered_id h (RegisterBinding sender now abi meta enc, Returned v) =
     (if abi = h then [v] else [])"
| "registered_id h x = []"

definition registered_with :: "bytes32 \<Rightarrow> (call \<times> outcome) list \<Rightarrow> uint256 list" where
  "registered_with h tr = concat (map (registered_id h) tr)"

text \<open>The id of a binding record a call stored, by either of the two functions that store one.\<close>

fun binding_created :: "call \<times> outcome \<Rightarrow> uint256 list" where
  "binding_created (RegisterBinding sender now abi meta enc, Returned v) = [v]"
| "binding_created (SubmitExternalEncryptedCount sender now cnt, Returned v) = [v]"
| "binding_created x = []"

definition created_bindings :: "(call \<times> outcome) list \<Rightarrow> uint256 list" where
  "created_bindings tr = concat (map binding_created tr)"

text \<open>The id of a task a decryption request created.\<close>

fun task_opened :: "call \<times> outcome \<Rightarrow> uint256 list" where
  "task_opened (RequestBindingDecryption sender now reqId bId, Returned v) = [v]"
| "task_opened (RequestCountDecryption sender now reqId bId, Returned v) = [v]"
| "task_opened x = []"

definition opened_tasks :: "(call \<times> outcome) list \<Rightarrow> uint256 list" where
  "opened_tasks tr = concat (map task_opened tr)"

text \<open>The oracle identifier under which a successful request wrote its correlation entry.\<close>

fun entry_written :: "call \<times> outcome \<Rightarrow> uint256 list" where
  "entry_written (RequestBindingDecryption sender now reqId bId, Returned v) = [reqId]"
| "entry_written (RequestCountDecryption sender now reqId bId, Returned v) = [reqId]"
| "entry_written x = []"

definition written_entries :: "(call \<times> outcome) list \<Rightarrow> uint256 list" where
  "written_entries tr = concat (map entry_written tr)"

text \<open>The \<open>DecryptionCompleted\<close> events of a task in an event log.\<close>

fun completion_of :: "uint256 \<Rightarrow> event \<Rightarrow> bool" where
  "completion_of t (DecryptionCompleted taskId bId) = (taskId = t)"
| "completion_of t ev = False"

section \<open>A small instance of the external collaborators\<close>

text \<open>
  To run the model on concrete calls the two parameters need values. The digest is one
  more than the sum of the octets, small enough to follow by hand; a proof is accepted
  when it is the request identifier followed by the cleartexts. Theorems about the
  contract never depend on this choice: they hold for every \<open>ext\<close>.
\<close>

definition toy_keccak :: "bytes \<Rightarrow> bytes32" where
  "toy_keccak bs = sum_list (map ucast bs) + 1"

definition toy_checkSignatures :: "uint256 \<Rightarrow> bytes \<Rightarrow> bytes \<Rightarrow> bool" where
  "toy_checkSignatures r c p = (p = be_bytes r @ c)"

definition toy_ext :: ext where
  "toy_ext = \<lparr>keccak256 = toy_keccak, checkSignatures = toy_checkSignatures\<rparr>"

text \<open>One binding registered by account 7 at time 1000.\<close>

definition one_registered :: contract where
  "one_registered = exec_all toy_ext deployed [RegisterBinding 7 1000 17 18 19]"

text \<open>The same binding with a decryption requested; the oracle answered with identifier 5.\<close>

definition one_requested :: contract where
  "one_requested = exec_all toy_ext deployed
     [RegisterBinding 7 1000 17 18 19, RequestBindingDecryption 7 1000 5 1]"

text \<open>The request completed by a callback with an empty cleartext and its accepted proof.\<close>

definition one_completed :: contract where
  "one_completed = exec_all toy_ext deployed
     [RegisterBinding 7 1000 17 18 19, RequestBindingDecryption 7 1000 5 1,
      HandleDecryption 5 [] (be_bytes (5 :: uint256))]"

text \<open>
  After the completion, the same account requests the same binding again in the same
  block; the oracle answers with identifier 6.
\<close>

definition one_reopened :: contract where
  "one_reopened = exec_all toy_ext deployed
     [RegisterBinding 7 1000 17 18 19, RequestBindingDecryption 7 1000 5 1,
      HandleDecryption 5 [] (be_bytes (5 :: uint256)), RequestBindingDecryption 7 1000 6 1]"

text \<open>After that request, the callback of the first request arrives once more.\<close>

definition one_replayed :: contract where
  "one_replayed = exec_all toy_ext deployed
     [RegisterBinding 7 1000 17 18 19, RequestBindingDecryption 7 1000 5 1,
      HandleDecryption 5 [] (be_bytes (5 :: uint256)), RequestBindingDecryption 7 1000 6 1,
      HandleDecryption 5 [] (be_bytes (5 :: uint256))]"

text \<open>An encrypted count submitted by account 7 at time 1000.\<close>

definition count_submitted :: contract where
  "count_submitted = exec_all toy_ext deployed [SubmitExternalEncryptedCount 7 1000 19]"

text \<open>An encrypted count submitted and its decryption requested, again with identifier 5.\<close>

definition count_requested :: contract where
  "count_requested = exec_all toy_ext deployed
     [SubmitExternalEncryptedCount 7 1000 19, RequestCountDecryption 7 1000 5 1]"

section \<open>An invariant of task ids that no request returned\<close>

text \<open>
  Such a task record is not completed and, unless the id is 0 (the value an unwritten
  correlation entry reads as), no correlation entry points to it.
\<close>

definition never_opened :: "contract \<Rightarrow> uint256 \<Rightarrow> bool" where
  "never_opened s t \<longleftrightarrow>
     \<not> completed (tasks s t) \<and> (t \<noteq> 0 \<longrightarrow> (\<forall>r. requestToTaskId s r \<noteq> t))"

section \<open>Facts about single calls\<close>

lemmas call_defs = registerBinding_def requestBindingDecryption_def handleDecryption_def
  submitExternalEncryptedCount_def requestCountDecryption_def handleCountDecryption_def
  receive_ether_def fallback_def returning_def finishing_def

lemma handleDecryption_Inr:
  "handleDecryption e r cl p s = Inr s' \<longleftrightarrow>
     requestToTaskId s r \<noteq> 0 \<and> \<not> completed (tasks s (requestToTaskId s r))
     \<and> checkSignatures e r cl p
     \<and> s' = s\<lparr>tasks := (tasks s)(requestToTaskId s r :=
                  (tasks s (requestToTaskId s r))\<lparr>completed := True\<rparr>),
              emitted := emitted s @ [DecryptionCompleted (requestToTaskId s r)
                  (bindingId (tasks s (requestToTaskId s r)))]\<rparr>"
  by (auto simp: handleDecryption_def Let_def)

lemma handleCountDecryption_Inr:
  "handleCountDecryption e r cl p s = Inr s' \<longleftrightarrow>
     requestToTaskId s r \<noteq> 0 \<and> \<not> completed (tasks s (requestToTaskId s r))
     \<and> checkSignatures e r cl p \<and> abi_decode_uint32 cl \<noteq> None
     \<and> s' = s\<lparr>tasks := (tasks s)(requestToTaskId s r :=
                  (tasks s (requestToTaskId s r))\<lparr>completed := True\<rparr>),
              emitted := emitted s @ [DecryptionCompleted (requestToTaskId s r)
                  (bindingId (tasks s (requestToTaskId s r)))]\<rparr>"
  by (auto simp: handleCountDecryption_def Let_def split: option.splits)

lemma handleDecryption_replay:
  "requestToTaskId s r \<noteq> 0 \<Longrightarrow> completed (tasks s (requestToTaskId s r)) \<Longrightarrow>
   handleDecryption e r cl p s = Inl AlreadyCompleted"
  by (simp add: handleDecryption_def Let_def)

lemma handleCountDecryption_replay:
  "requestToTaskId s r \<noteq> 0 \<Longrightarrow> completed (tasks s (requestToTaskId s r)) \<Longrightarrow>
   handleCountDecryption e r cl p s = Inl AlreadyCompleted"
  by (simp add: handleCountDecryption_def Let_def)

lemma completion_effect:
  assumes "completes r c" and "transact e s c = (s', Done)"
  shows "requestToTaskId s r \<noteq> 0"
    and "\<not> completed (tasks s (requestToTaskId s r))"
    and "s' = s\<lparr>tasks := (tasks s)(requestToTaskId s r :=
                  (tasks s (requestToTaskId s r))\<lparr>completed := True\<rparr>),
              emitted := emitted s @ [DecryptionCompleted (requestToTaskId s r)
                  (bindingId (tasks s (requestToTaskId s r)))]\<rparr>"
  using assms
  by (cases c; auto simp: finishing_def handleDecryption_Inr handleCountDecryption_Inr
        split: sum.splits)+

lemma replay_reverts:
  assumes "completes r c" and "requestToTaskId s r \<noteq> 0"
    and "completed (tasks s (requestToTaskId s r))"
  shows "transact e s c = (s, Reverted AlreadyCompleted)"
  using assms
  by (cases c) (auto simp: finishing_def handleDecryption_replay handleCountDecryption_replay)

section \<open>The packed encoding is injective\<close>

lemma length_be_bytes: "length (be_bytes (w :: 'a::len word)) = LENGTH('a) div 8"
  by (simp add: be_bytes_def)

lemma be_bytes_octet:
  assumes "be_bytes (v :: 'a::len word) = be_bytes (w :: 'a word)" and "i < LENGTH('a) div 8"
  shows "(ucast (drop_bit (8 * i) v) :: 8 word) = ucast (drop_bit (8 * i) w)"
proof -
  from assms(1) have "map (\<lambda>i. ucast (drop_bit (8 * i) v) :: 8 word) (rev [0..<LENGTH('a) div 8])
      = map (\<lambda>i. ucast (drop_bit (8 * i) w)) (rev [0..<LENGTH('a) div 8])"
    by (simp add: be_bytes_def)
  then have "\<forall>x \<in> set (rev [0..<LENGTH('a) div 8]).
      (ucast (drop_bit (8 * x) v) :: 8 word) = ucast (drop_bit (8 * x) w)"
    by (simp only: map_eq_conv)
  with assms(2) show ?thesis by simp
qed

lemma be_bytes_inj:
  assumes "be_bytes (v :: 'a::len word) = be_bytes (w :: 'a word)" and "8 dvd LENGTH('a)"
  shows "v = w"
proof (rule bit_word_eqI)
  fix n assume n: "n < LENGTH('a)"
  have i: "n div 8 < LENGTH('a) div 8"
  proof -
    from assms(2) obtain k where k: "LENGTH('a) = 8 * k" by (auto elim: dvdE)
    with n show ?thesis by simp
  qed
  from be_bytes_octet [OF assms(1) i]
  have "bit (ucast (drop_bit (8 * (n div 8)) v) :: 8 word) (n mod 8)
      = bit (ucast (drop_bit (8 * (n div 8)) w) :: 8 word) (n mod 8)"
    by simp
  then show "bit v n = bit w n"
    by (simp add: bit_ucast_iff bit_drop_bit_eq)
qed

lemma encodePacked_binding_inj:
  "encodePacked_binding b n a = encodePacked_binding b' n' a' \<longleftrightarrow> b = b' \<and> n = n' \<and> a = a'"
proof
  assume eq: "encodePacked_binding b n a = encodePacked_binding b' n' a'"
  then have "be_bytes b = be_bytes b'" "be_bytes n = be_bytes n'" "be_bytes a = be_bytes a'"
    by (simp_all add: encodePacked_binding_def length_be_bytes)
  then show "b = b' \<and> n = n' \<and> a = a'"
    by (auto intro: be_bytes_inj)
qed simp

lemma encodePacked_count_inj:
  "encodePacked_count b n = encodePacked_count b' n' \<longleftrightarrow> b = b' \<and> n = n'"
proof
  assume eq: "encodePacked_count b n = encodePacked_count b' n'"
  then have "be_bytes b = be_bytes b'" "be_bytes n = be_bytes n'"
    by (simp_all add: encodePacked_count_def length_be_bytes)
  then show "b = b' \<and> n = n'"
    by (auto intro: be_bytes_inj)
qed simp

section \<open>Facts about histories\<close>

lemma transact_index:
  "abiHashToBinding (fst (transact e s c)) h =
     (if registered_id h (c, snd (transact e s c)) = [] then abiHashToBinding s h
      else last (registered_id h (c, snd (transact e s c))))"
  by (cases c) (auto simp: call_defs Let_def split: option.splits)

lemma lookup_after_calls:
  "lookupBindingByAbi (exec_all e s cs) h =
     (if registered_with h (trace e s cs) = [] then lookupBindingByAbi s h
      else last (registered_with h (trace e s cs)))"
proof (induction cs arbitrary: s)
  case Nil
  show ?case by (simp add: registered_with_def)
next
  case (Cons c cs)
  let ?s1 = "fst (transact e s c)"
  have split: "registered_with h (trace e s (c # cs)) =
        registered_id h (c, snd (transact e s c)) @ registered_with h (trace e ?s1 cs)"
    by (simp add: registered_with_def)
  have first: "lookupBindingByAbi ?s1 h =
     (if registered_id h (c, snd (transact e s c)) = [] then lookupBindingByAbi s h
      else last (registered_id h (c, snd (transact e s c))))"
    unfolding lookupBindingByAbi_def by (rule transact_index)
  show ?case
    using Cons.IH [of ?s1] first split by simp
qed

lemma registered_id_nonzero: "0 \<notin> set (registered_id h (c, snd (transact e s c)))"
proof (cases c)
  case (RegisterBinding sender now abi meta enc)
  have "unat (bindingCount s) + 1 < 2 ^ 256 \<Longrightarrow> bindingCount s + 1 \<noteq> 0"
  proof
    assume a: "unat (bindingCount s) + 1 < 2 ^ 256" and z: "bindingCount s + 1 = 0"
    have "unat (bindingCount s + 1) = (unat (bindingCount s) + 1) mod 2 ^ 256"
      by (simp add: unat_word_ariths)
    with a z show False by simp
  qed
  with RegisterBinding show ?thesis
    by (auto simp: call_defs Let_def)
qed (auto simp: call_defs Let_def split: sum.splits prod.splits)

lemma registered_with_nonzero: "0 \<notin> set (registered_with h (trace e s cs))"
proof (induction cs arbitrary: s)
  case Nil
  show ?case by (simp add: registered_with_def)
next
  case (Cons c cs)
  have "registered_with h (trace e s (c # cs)) =
        registered_id h (c, snd (transact e s c))
        @ registered_with h (trace e (fst (transact e s c)) cs)"
    by (simp add: registered_with_def)
  with Cons.IH [of "fst (transact e s c)"] registered_id_nonzero [of h c e s]
  show ?case by simp
qed

lemma transact_bindings:
  "b \<notin> set (binding_created (c, snd (transact e s c))) \<Longrightarrow>
   bindings (fst (transact e s c)) b = bindings s b"
  by (cases c) (auto simp: call_defs Let_def split: option.splits)

lemma unknown_binding_after_calls:
  "rec_id (bindings s b) = 0 \<Longrightarrow> b \<notin> set (created_bindings (trace e s cs)) \<Longrightarrow>
   rec_id (bindings (exec_all e s cs) b) = 0"
proof (induction cs arbitrary: s)
  case Nil
  then show ?case by simp
next
  case (Cons c cs)
  let ?s1 = "fst (transact e s c)"
  from Cons.prems(2) have here: "b \<notin> set (binding_created (c, snd (transact e s c)))"
    and later: "b \<notin> set (created_bindings (trace e ?s1 cs))"
    by (simp_all add: created_bindings_def)
  from here Cons.prems(1) have "rec_id (bindings ?s1 b) = 0"
    by (simp add: transact_bindings)
  from Cons.IH [OF this later] show ?case by simp
qed

lemma transact_never_opened:
  assumes "never_opened s t" and "t \<notin> set (task_opened (c, snd (transact e s c)))"
  shows "never_opened (fst (transact e s c)) t"
proof (cases c)
  case (HandleDecryption r cl p)
  with assms show ?thesis
    by (cases "t = 0") (auto simp: never_opened_def call_defs Let_def)
next
  case (HandleCountDecryption r cl p)
  with assms show ?thesis
    by (cases "t = 0") (auto simp: never_opened_def call_defs Let_def split: option.splits)
qed (use assms in \<open>auto simp: never_opened_def call_defs Let_def\<close>)

lemma never_opened_after_calls:
  "never_opened s t \<Longrightarrow> t \<notin> set (opened_tasks (trace e s cs)) \<Longrightarrow>
   never_opened (exec_all e s cs) t"
proof (induction cs arbitrary: s)
  case Nil
  then show ?case by simp
next
  case (Cons c cs)
  let ?s1 = "fst (transact e s c)"
  from Cons.prems(2) have here: "t \<notin> set (task_opened (c, snd (transact e s c)))"
    and later: "t \<notin> set (opened_tasks (trace e ?s1 cs))"
    by (simp_all add: opened_tasks_def)
  from transact_never_opened [OF Cons.prems(1) here] have "never_opened ?s1 t" .
  from Cons.IH [OF this later] show ?case by simp
qed

lemma transact_keeps_spent:
  assumes "requestToTaskId s r = t" and "t \<noteq> 0" and "completed (tasks s t)"
    and "t \<notin> set (task_opened (c, snd (transact e s c)))"
    and "r \<notin> set (entry_written (c, snd (transact e s c)))"
  shows "requestToTaskId (fst (transact e s c)) r = t
         \<and> completed (tasks (fst (transact e s c)) t)
         \<and> filter (completion_of t) (emitted (fst (transact e s c)))
             = filter (completion_of t) (emitted s)"
  using assms
  by (cases c) (auto simp: call_defs Let_def split: option.splits if_splits)

lemma spent_after_calls:
  assumes "requestToTaskId s r = t" and "t \<noteq> 0" and "completed (tasks s t)"
    and "t \<notin> set (opened_tasks (trace e s cs))"
    and "r \<notin> set (written_entries (trace e s cs))"
  shows "requestToTaskId (exec_all e s cs) r = t
         \<and> completed (tasks (exec_all e s cs) t)
         \<and> filter (completion_of t) (emitted (exec_all e s cs))
             = filter (completion_of t) (emitted s)"
  using assms
proof (induction cs arbitrary: s)
  case Nil
  then show ?case by simp
next
  case (Cons c cs)
  let ?s1 = "fst (transact e s c)"
  from Cons.prems(4) have here_t: "t \<notin> set (task_opened (c, snd (transact e s c)))"
    and later_t: "t \<notin> set (opened_tasks (trace e ?s1 cs))"
    by (simp_all add: opened_tasks_def)
  from Cons.prems(5) have here_r: "r \<notin> set (entry_written (c, snd (transact e s c)))"
    and later_r: "r \<notin> set (written_entries (trace e ?s1 cs))"
    by (simp_all add: written_entries_def)
  from transact_keeps_spent [OF Cons.prems(1-3) here_t here_r]
  have step: "requestToTaskId ?s1 r = t" "completed (tasks ?s1 t)"
    "filter (completion_of t) (emitted ?s1) = filter (completion_of t) (emitted s)"
    by simp_all
  from Cons.IH [OF step(1) Cons.prems(2) step(2) later_t later_r] step(3)
  show ?case by simp
qed

section \<open>Running the small instance\<close>

lemma toy_digest_binding: "toy_keccak (encodePacked_binding 1 1000 7) = 244"
  by code_simp

lemma toy_digest_count: "toy_keccak (encodePacked_count 1 1000) = 790"
  by code_simp

lemma decode_empty: "abi_decode_uint32 [] = None"
  by (simp add: abi_decode_uint32_def)

lemma decode_42: "abi_decode_uint32 (be_bytes (42 :: uint256)) = Some 42"
  by code_simp

lemmas run_simps = toy_ext_def call_defs Let_def deployed_def zero_binding_def zero_task_def
  toy_digest_binding toy_digest_count toy_checkSignatures_def decode_empty

lemma complete_one_requested:
  "transact toy_ext one_requested (HandleDecryption 5 [] (be_bytes (5 :: uint256)))
     = (one_completed, Done)"
  by (simp add: one_requested_def one_completed_def run_simps)

lemma reopen_one_completed:
  "transact toy_ext one_completed (RequestBindingDecryption 7 1000 6 1)
     = (one_reopened, Returned 244)"
  by (simp add: one_completed_def one_reopened_def run_simps)

lemma toy_digest_other: "toy_keccak (encodePacked_binding 2 1001 8) = 247"
  by code_simp

lemma request_one_registered:
  "requestBindingDecryption toy_ext 7 1000 5 1 one_registered = Inr (244, one_requested)"
  by (simp add: one_registered_def one_requested_def run_simps)

lemma request_count_submitted:
  "requestCountDecryption toy_ext 7 1000 5 1 count_submitted = Inr (790, count_requested)"
  by (simp add: count_submitted_def count_requested_def run_simps)

section \<open>Registration and lookup\<close>

text \<open>
  C8: after a successful \<open>registerBinding\<close>, \<open>getBinding\<close> of the returned id yields the
  sender as uploader, the two hashes and the ciphertext handle that were supplied (and
  the block timestamp), and \<open>bindingCount\<close> has grown by exactly one.
\<close>

theorem register_then_get:
  assumes "registerBinding sender now abi meta enc s = Inr (bid, s')"
  shows "getBinding s' bid = (sender, abi, meta, enc, now)
         \<and> unat (bindingCount s') = unat (bindingCount s) + 1
         \<and> bid = bindingCount s'"
proof -
  from assms have no_ovf: "unat (bindingCount s) + 1 < 2 ^ 256"
    by (auto simp: registerBinding_def split: if_splits)
  from assms have bid: "bid = bindingCount s + 1"
    by (auto simp: registerBinding_def Let_def split: if_splits)
  from assms have cnt: "bindingCount s' = bindingCount s + 1"
    by (auto simp: registerBinding_def Let_def split: if_splits)
  from assms have get: "getBinding s' bid = (sender, abi, meta, enc, now)"
    by (auto simp: registerBinding_def getBinding_def Let_def split: if_splits)
  have "unat (bindingCount s + 1) = (unat (bindingCount s) + 1) mod 2 ^ 256"
    by (simp add: unat_word_ariths)
  with no_ovf have "unat (bindingCount s + 1) = unat (bindingCount s) + 1"
    by simp
  with bid cnt get show ?thesis by simp
qed

theorem register_then_get_witness:
  "registerBinding 7 1000 17 18 19 deployed = Inr (1, one_registered)
   \<and> getBinding one_registered 1 = (7, 17, 18, 19, 1000)
   \<and> unat (bindingCount one_registered) = unat (bindingCount deployed) + 1
   \<and> 1 = bindingCount one_registered"
proof -
  have h: "registerBinding 7 1000 17 18 19 deployed = Inr (1, one_registered)"
    by (simp add: one_registered_def registerBinding_def deployed_def returning_def Let_def)
  from register_then_get [OF h] h show ?thesis by blast
qed

text \<open>
  C9: after any sequence of calls on the freshly deployed contract,
  \<open>lookupBindingByAbi h\<close> is 0 when no successful \<open>registerBinding\<close> call carried the
  content hash \<open>h\<close>, and otherwise the id returned by the last such call. No such id is
  0, so the sentinel is never the id of a registered binding.
\<close>

theorem lookup_last_writer_wins:
  "lookupBindingByAbi (exec_all e deployed cs) h =
     (if registered_with h (trace e deployed cs) = [] then 0
      else last (registered_with h (trace e deployed cs)))
   \<and> 0 \<notin> set (registered_with h (trace e deployed cs))"
proof -
  have "lookupBindingByAbi deployed h = 0"
    by (simp add: lookupBindingByAbi_def deployed_def)
  with lookup_after_calls [of e deployed cs h] registered_with_nonzero [of h e deployed cs]
  show ?thesis by simp
qed

theorem lookup_last_writer_wins_witness:
  "lookupBindingByAbi (exec_all toy_ext deployed
       [RegisterBinding 7 1000 17 18 19, RegisterBinding 8 1001 17 20 21,
        RegisterBinding 7 1002 23 24 25]) 17 = 2
   \<and> registered_with 17 (trace toy_ext deployed
       [RegisterBinding 7 1000 17 18 19, RegisterBinding 8 1001 17 20 21,
        RegisterBinding 7 1002 23 24 25]) = [1, 2]
   \<and> lookupBindingByAbi (exec_all toy_ext deployed
       [RegisterBinding 7 1000 17 18 19, RegisterBinding 8 1001 17 20 21,
        RegisterBinding 7 1002 23 24 25]) 99 = 0
   \<and> registered_with 99 (trace toy_ext deployed
       [RegisterBinding 7 1000 17 18 19, RegisterBinding 8 1001 17 20 21,
        RegisterBinding 7 1002 23 24 25]) = []"
proof -
  let ?cs = "[RegisterBinding 7 1000 17 18 19, RegisterBinding 8 1001 17 20 21,
              RegisterBinding 7 1002 23 24 25]"
  have r17: "registered_with 17 (trace toy_ext deployed ?cs) = [1, 2]"
    by (simp add: registered_with_def run_simps)
  have r99: "registered_with 99 (trace toy_ext deployed ?cs) = []"
    by (simp add: registered_with_def run_simps)
  from lookup_last_writer_wins [of toy_ext ?cs 17] r17
  have "lookupBindingByAbi (exec_all toy_ext deployed ?cs) 17 = 2" by simp
  moreover from lookup_last_writer_wins [of toy_ext ?cs 99] r99
  have "lookupBindingByAbi (exec_all toy_ext deployed ?cs) 99 = 0" by simp
  ultimately show ?thesis using r17 r99 by blast
qed

section \<open>Completion callbacks\<close>

text \<open>
  C1, as stated, fails: binding 1 is registered, its decryption requested (the oracle
  answers 5) and completed; account 7 then requests the same binding again in the same
  block, and the callback for 5 arrives a second time. That second callback succeeds, and
  the log holds \<open>DecryptionCompleted\<close> twice for the one task 244.
\<close>

theorem replay_succeeds_after_same_request:
  "trace toy_ext deployed
     [RegisterBinding 7 1000 17 18 19, RequestBindingDecryption 7 1000 5 1,
      HandleDecryption 5 [] (be_bytes (5 :: uint256)), RequestBindingDecryption 7 1000 6 1,
      HandleDecryption 5 [] (be_bytes (5 :: uint256))] =
   [(RegisterBinding 7 1000 17 18 19, Returned 1),
    (RequestBindingDecryption 7 1000 5 1, Returned 244),
    (HandleDecryption 5 [] (be_bytes (5 :: uint256)), Done),
    (RequestBindingDecryption 7 1000 6 1, Returned 244),
    (HandleDecryption 5 [] (be_bytes (5 :: uint256)), Done)]
   \<and> emitted one_replayed =
     [BindingRegistered 1 7, DecryptionRequested 244 1, DecryptionCompleted 244 1,
      DecryptionRequested 244 1, DecryptionCompleted 244 1]"
proof -
  have "emitted one_replayed =
     [BindingRegistered 1 7, DecryptionRequested 244 1, DecryptionCompleted 244 1,
      DecryptionRequested 244 1, DecryptionCompleted 244 1]"
    by (simp add: one_replayed_def run_simps)
  moreover have "trace toy_ext deployed
     [RegisterBinding 7 1000 17 18 19, RequestBindingDecryption 7 1000 5 1,
      HandleDecryption 5 [] (be_bytes (5 :: uint256)), RequestBindingDecryption 7 1000 6 1,
      HandleDecryption 5 [] (be_bytes (5 :: uint256))] =
   [(RegisterBinding 7 1000 17 18 19, Returned 1),
    (RequestBindingDecryption 7 1000 5 1, Returned 244),
    (HandleDecryption 5 [] (be_bytes (5 :: uint256)), Done),
    (RequestBindingDecryption 7 1000 6 1, Returned 244),
    (HandleDecryption 5 [] (be_bytes (5 :: uint256)), Done)]"
    by (simp add: run_simps)
  ultimately show ?thesis by simp
qed

text \<open>
  C1, amended: let a completion callback for request identifier \<open>r\<close> succeed, completing
  task \<open>t\<close>, and let any calls follow among which no successful decryption request
  returns the task id \<open>t\<close> or has its correlation entry written under \<open>r\<close>. Then a
  further callback for \<open>r\<close> (through either callback function, with any cleartexts and
  proof) reverts with "Already completed" and leaves the whole storage as it was, and
  the event log holds exactly one \<open>DecryptionCompleted\<close> for \<open>t\<close> more than before
  the first callback. With no calls in between these are two consecutive callbacks.
\<close>

theorem replay_fails_until_task_reopened:
  assumes "completes r c1" and "completes r c2" and "transact e s c1 = (s1, Done)"
    and "requestToTaskId s r \<notin> set (opened_tasks (trace e s1 cs))"
    and "r \<notin> set (written_entries (trace e s1 cs))"
  shows "transact e (exec_all e s1 cs) c2 = (exec_all e s1 cs, Reverted AlreadyCompleted)
         \<and> filter (completion_of (requestToTaskId s r))
               (emitted (fst (transact e (exec_all e s1 cs) c2)))
             = filter (completion_of (requestToTaskId s r)) (emitted s)
               @ [DecryptionCompleted (requestToTaskId s r)
                    (bindingId (tasks s (requestToTaskId s r)))]"
proof -
  let ?t = "requestToTaskId s r"
  note eff = completion_effect [OF assms(1) assms(3)]
  from eff have entry: "requestToTaskId s1 r = ?t" and flag: "completed (tasks s1 ?t)"
    by simp_all
  from eff(3) have "emitted s1 = emitted s @ [DecryptionCompleted ?t (bindingId (tasks s ?t))]"
    by simp
  then have first: "filter (completion_of ?t) (emitted s1)
      = filter (completion_of ?t) (emitted s) @ [DecryptionCompleted ?t (bindingId (tasks s ?t))]"
    by simp
  from spent_after_calls [OF entry eff(1) flag assms(4) assms(5)]
  have later: "requestToTaskId (exec_all e s1 cs) r = ?t"
    "completed (tasks (exec_all e s1 cs) ?t)"
    "filter (completion_of ?t) (emitted (exec_all e s1 cs)) = filter (completion_of ?t) (emitted s1)"
    by simp_all
  from later(1,2) eff(1)
  have "transact e (exec_all e s1 cs) c2 = (exec_all e s1 cs, Reverted AlreadyCompleted)"
    by (intro replay_reverts [OF assms(2)]) simp_all
  with later(3) first show ?thesis by simp
qed

theorem replay_fails_until_task_reopened_witness:
  "completes 5 (HandleDecryption 5 [] (be_bytes (5 :: uint256)))
   \<and> completes 5 (HandleCountDecryption 5 (be_bytes (42 :: uint256)) [])
   \<and> transact toy_ext one_requested (HandleDecryption 5 [] (be_bytes (5 :: uint256)))
       = (one_completed, Done)
   \<and> requestToTaskId one_requested 5 \<notin> set (opened_tasks (trace toy_ext one_completed
         [RegisterBinding 8 1001 17 20 21, RequestBindingDecryption 8 1001 6 2,
          HandleDecryption 6 [] (be_bytes (6 :: uint256))]))
   \<and> 5 \<notin> set (written_entries (trace toy_ext one_completed
         [RegisterBinding 8 1001 17 20 21, RequestBindingDecryption 8 1001 6 2,
          HandleDecryption 6 [] (be_bytes (6 :: uint256))]))
   \<and> transact toy_ext (exec_all toy_ext one_completed
         [RegisterBinding 8 1001 17 20 21, RequestBindingDecryption 8 1001 6 2,
          HandleDecryption 6 [] (be_bytes (6 :: uint256))])
         (HandleCountDecryption 5 (be_bytes (42 :: uint256)) [])
       = (exec_all toy_ext one_completed
         [RegisterBinding 8 1001 17 20 21, RequestBindingDecryption 8 1001 6 2,
          HandleDecryption 6 [] (be_bytes (6 :: uint256))], Reverted AlreadyCompleted)
   \<and> filter (completion_of (requestToTaskId one_requested 5))
         (emitted (fst (transact toy_ext (exec_all toy_ext one_completed
            [RegisterBinding 8 1001 17 20 21, RequestBindingDecryption 8 1001 6 2,
             HandleDecryption 6 [] (be_bytes (6 :: uint256))])
            (HandleCountDecryption 5 (be_bytes (42 :: uint256)) []))))
       = filter (completion_of (requestToTaskId one_requested 5)) (emitted one_requested)
         @ [DecryptionCompleted (requestToTaskId one_requested 5)
              (bindingId (tasks one_requested (requestToTaskId one_requested 5)))]
   \<and> trace toy_ext one_completed
         [RegisterBinding 8 1001 17 20 21, RequestBindingDecryption 8 1001 6 2,
          HandleDecryption 6 [] (be_bytes (6 :: uint256))]
       = [(RegisterBinding 8 1001 17 20 21, Returned 2),
          (RequestBindingDecryption 8 1001 6 2, Returned 247),
          (HandleDecryption 6 [] (be_bytes (6 :: uint256)), Done)]"
proof -
  let ?cs = "[RegisterBinding 8 1001 17 20 21, RequestBindingDecryption 8 1001 6 2,
              HandleDecryption 6 [] (be_bytes (6 :: uint256))]"
  have h1: "completes 5 (HandleDecryption 5 [] (be_bytes (5 :: uint256)))" by simp
  have h2: "completes 5 (HandleCountDecryption 5 (be_bytes (42 :: uint256)) [])" by simp
  have tr: "trace toy_ext one_completed ?cs
       = [(RegisterBinding 8 1001 17 20 21, Returned 2),
          (RequestBindingDecryption 8 1001 6 2, Returned 247),
          (HandleDecryption 6 [] (be_bytes (6 :: uint256)), Done)]"
    by (simp add: one_completed_def run_simps toy_digest_other)
  have t: "requestToTaskId one_requested 5 = 244"
    by (simp add: one_requested_def run_simps)
  have h4: "requestToTaskId one_requested 5 \<notin> set (opened_tasks (trace toy_ext one_completed ?cs))"
    unfolding tr t by (simp add: opened_tasks_def)
  have h5: "5 \<notin> set (written_entries (trace toy_ext one_completed ?cs))"
    unfolding tr by (simp add: written_entries_def)
  from replay_fails_until_task_reopened [OF h1 h2 complete_one_requested h4 h5]
    h1 h2 complete_one_requested h4 h5 tr
  show ?thesis by blast
qed




text \<open>
  C3: let \<open>r\<close> map to a task that is not completed. A call of \<open>handleDecryption\<close> whose
  proof fails the signature check reverts and leaves storage and event log as they were,
  so the task is still pending and nothing was emitted; a call after it with a proof that
  passes the check for the same \<open>r\<close> succeeds and completes the task.
\<close>

theorem tampered_proof_keeps_pending:
  assumes "requestToTaskId s r \<noteq> 0"
    and "\<not> isTaskCompleted s (requestToTaskId s r)"
    and "\<not> checkSignatures e r cl p"
    and "checkSignatures e r cl' p'"
  shows "transact e s (HandleDecryption r cl p) = (s, Reverted InvalidSignatures)
         \<and> snd (transact e (fst (transact e s (HandleDecryption r cl p)))
                   (HandleDecryption r cl' p')) = Done
         \<and> isTaskCompleted (fst (transact e (fst (transact e s (HandleDecryption r cl p)))
                   (HandleDecryption r cl' p'))) (requestToTaskId s r)"
proof -
  from assms(1-3) have bad: "transact e s (HandleDecryption r cl p) = (s, Reverted InvalidSignatures)"
    by (simp add: isTaskCompleted_def handleDecryption_def finishing_def Let_def)
  from assms(1,2,4) have good: "snd (transact e s (HandleDecryption r cl' p')) = Done"
    and flag: "isTaskCompleted (fst (transact e s (HandleDecryption r cl' p'))) (requestToTaskId s r)"
    by (simp_all add: isTaskCompleted_def handleDecryption_def finishing_def Let_def)
  from bad good flag show ?thesis by simp
qed

theorem tampered_proof_keeps_pending_witness:
  "requestToTaskId one_requested 5 \<noteq> 0
   \<and> \<not> isTaskCompleted one_requested (requestToTaskId one_requested 5)
   \<and> \<not> checkSignatures toy_ext 5 [] []
   \<and> checkSignatures toy_ext 5 [] (be_bytes (5 :: uint256))
   \<and> transact toy_ext one_requested (HandleDecryption 5 [] [])
       = (one_requested, Reverted InvalidSignatures)
   \<and> snd (transact toy_ext (fst (transact toy_ext one_requested (HandleDecryption 5 [] [])))
             (HandleDecryption 5 [] (be_bytes (5 :: uint256)))) = Done
   \<and> isTaskCompleted
         (fst (transact toy_ext (fst (transact toy_ext one_requested (HandleDecryption 5 [] [])))
             (HandleDecryption 5 [] (be_bytes (5 :: uint256)))))
         (requestToTaskId one_requested 5)"
proof -
  have h1: "requestToTaskId one_requested 5 \<noteq> 0"
    by (simp add: one_requested_def run_simps)
  have h2: "\<not> isTaskCompleted one_requested (requestToTaskId one_requested 5)"
    by (simp add: one_requested_def isTaskCompleted_def run_simps)
  have h3: "\<not> checkSignatures toy_ext 5 [] []"
    by (simp add: toy_ext_def toy_checkSignatures_def be_bytes_def)
  have h4: "checkSignatures toy_ext 5 [] (be_bytes (5 :: uint256))"
    by (simp add: toy_ext_def toy_checkSignatures_def)
  from tampered_proof_keeps_pending [OF h1 h2 h3 h4] h1 h2 h3 h4
  show ?thesis by blast
qed

text \<open>
  The count callback rejects a bad proof in the same way; there the later call needs
  cleartexts that decode as well as a proof that passes.
\<close>

lemma tampered_count_proof_keeps_pending:
  assumes "requestToTaskId s r \<noteq> 0"
    and "\<not> isTaskCompleted s (requestToTaskId s r)"
    and "\<not> checkSignatures e r cl p"
  shows "transact e s (HandleCountDecryption r cl p) = (s, Reverted InvalidSignatures)"
  using assms
  by (simp add: isTaskCompleted_def handleCountDecryption_def finishing_def Let_def)

text \<open>
  C6, as stated, fails for the count callback: with a count decryption pending under
  identifier 5, a callback whose proof passes the check but whose cleartexts are empty
  reverts in \<open>abi.decode\<close>, and the task is still not completed.
\<close>

theorem count_decode_failure_blocks_completion:
  "requestToTaskId count_requested 5 = 790
   \<and> checkSignatures toy_ext 5 [] (be_bytes (5 :: uint256))
   \<and> abi_decode_uint32 [] = None
   \<and> transact toy_ext count_requested (HandleCountDecryption 5 [] (be_bytes (5 :: uint256)))
       = (count_requested, Reverted DecodeFailure)
   \<and> \<not> isTaskCompleted
         (fst (transact toy_ext count_requested
                 (HandleCountDecryption 5 [] (be_bytes (5 :: uint256))))) 790"
  by (simp add: count_requested_def isTaskCompleted_def run_simps)

text \<open>
  C6, amended: for a pending task and a proof that passes the check, \<open>handleDecryption\<close>
  decodes nothing and always completes the task; \<open>handleCountDecryption\<close> completes it
  when the cleartexts decode as \<open>uint32\<close>, and when they do not it reverts, the storage
  is unchanged and the task stays pending.
\<close>

theorem verified_completion_and_decoding:
  assumes "requestToTaskId s r \<noteq> 0"
    and "\<not> isTaskCompleted s (requestToTaskId s r)"
    and "checkSignatures e r cl p"
  shows "snd (transact e s (HandleDecryption r cl p)) = Done
         \<and> isTaskCompleted (fst (transact e s (HandleDecryption r cl p))) (requestToTaskId s r)
         \<and> (abi_decode_uint32 cl = None \<longrightarrow>
              transact e s (HandleCountDecryption r cl p) = (s, Reverted DecodeFailure))
         \<and> (abi_decode_uint32 cl \<noteq> None \<longrightarrow>
              snd (transact e s (HandleCountDecryption r cl p)) = Done
              \<and> isTaskCompleted (fst (transact e s (HandleCountDecryption r cl p)))
                    (requestToTaskId s r))"
proof -
  from assms have plain: "snd (transact e s (HandleDecryption r cl p)) = Done"
    "isTaskCompleted (fst (transact e s (HandleDecryption r cl p))) (requestToTaskId s r)"
    by (simp_all add: isTaskCompleted_def handleDecryption_def finishing_def Let_def)
  from assms have undecoded: "abi_decode_uint32 cl = None \<longrightarrow>
      transact e s (HandleCountDecryption r cl p) = (s, Reverted DecodeFailure)"
    by (simp add: isTaskCompleted_def handleCountDecryption_def finishing_def Let_def)
  from assms have decoded: "abi_decode_uint32 cl \<noteq> None \<longrightarrow>
      snd (transact e s (HandleCountDecryption r cl p)) = Done
      \<and> isTaskCompleted (fst (transact e s (HandleCountDecryption r cl p))) (requestToTaskId s r)"
    by (auto simp: isTaskCompleted_def handleCountDecryption_def finishing_def Let_def)
  from plain undecoded decoded show ?thesis by blast
qed

theorem verified_completion_and_decoding_witness:
  "requestToTaskId count_requested 5 \<noteq> 0
   \<and> \<not> isTaskCompleted count_requested (requestToTaskId count_requested 5)
   \<and> checkSignatures toy_ext 5 [] (be_bytes (5 :: uint256))
   \<and> abi_decode_uint32 [] = None
   \<and> transact toy_ext count_requested (HandleCountDecryption 5 [] (be_bytes (5 :: uint256)))
       = (count_requested, Reverted DecodeFailure)
   \<and> snd (transact toy_ext count_requested (HandleDecryption 5 [] (be_bytes (5 :: uint256))))
       = Done
   \<and> checkSignatures toy_ext 5 (be_bytes (42 :: uint256))
         (be_bytes (5 :: uint256) @ be_bytes (42 :: uint256))
   \<and> abi_decode_uint32 (be_bytes (42 :: uint256)) \<noteq> None
   \<and> snd (transact toy_ext count_requested
             (HandleCountDecryption 5 (be_bytes (42 :: uint256))
                (be_bytes (5 :: uint256) @ be_bytes (42 :: uint256)))) = Done
   \<and> isTaskCompleted
         (fst (transact toy_ext count_requested
             (HandleCountDecryption 5 (be_bytes (42 :: uint256))
                (be_bytes (5 :: uint256) @ be_bytes (42 :: uint256)))))
         (requestToTaskId count_requested 5)"
proof -
  have h1: "requestToTaskId count_requested 5 \<noteq> 0"
    by (simp add: count_requested_def run_simps)
  have h2: "\<not> isTaskCompleted count_requested (requestToTaskId count_requested 5)"
    by (simp add: count_requested_def isTaskCompleted_def run_simps)
  have h3: "checkSignatures toy_ext 5 [] (be_bytes (5 :: uint256))"
    by (simp add: toy_ext_def toy_checkSignatures_def)
  have h4: "checkSignatures toy_ext 5 (be_bytes (42 :: uint256))
              (be_bytes (5 :: uint256) @ be_bytes (42 :: uint256))"
    by (simp add: toy_ext_def toy_checkSignatures_def)
  have d1: "abi_decode_uint32 [] = None"
    by (rule decode_empty)
  have d2: "abi_decode_uint32 (be_bytes (42 :: uint256)) \<noteq> None"
    by (simp add: decode_42)
  from verified_completion_and_decoding [OF h1 h2 h3]
       verified_completion_and_decoding [OF h1 h2 h4] h1 h2 h3 h4 d1 d2
  show ?thesis by blast
qed

section \<open>Decryption requests and task ids\<close>

text \<open>
  C7: after any sequence of calls on the freshly deployed contract, a decryption request
  for a binding id that no successful \<open>registerBinding\<close> or
  \<open>submitExternalEncryptedCount\<close> returned reverts, with "Invalid binding" from
  \<open>requestBindingDecryption\<close> and "Not found" from \<open>requestCountDecryption\<close>. The
  storage, the event log and the log of oracle requests are as before: no task, no
  oracle request, no correlation entry, no event.
\<close>

theorem request_unknown_binding_reverts:
  assumes "bId \<notin> set (created_bindings (trace e deployed cs))"
  shows "transact e (exec_all e deployed cs) (RequestBindingDecryption sender now reqId bId)
           = (exec_all e deployed cs, Reverted InvalidBinding)
         \<and> transact e (exec_all e deployed cs) (RequestCountDecryption sender now reqId bId)
           = (exec_all e deployed cs, Reverted NotFound)"
proof -
  have "rec_id (bindings deployed bId) = 0"
    by (simp add: deployed_def zero_binding_def)
  from unknown_binding_after_calls [OF this assms]
  have "rec_id (bindings (exec_all e deployed cs) bId) = 0" .
  then show ?thesis
    by (simp add: requestBindingDecryption_def requestCountDecryption_def returning_def Let_def)
qed

theorem request_unknown_binding_reverts_witness:
  "2 \<notin> set (created_bindings (trace toy_ext deployed [RegisterBinding 7 1000 17 18 19]))
   \<and> transact toy_ext (exec_all toy_ext deployed [RegisterBinding 7 1000 17 18 19])
         (RequestBindingDecryption 7 1000 5 2)
       = (exec_all toy_ext deployed [RegisterBinding 7 1000 17 18 19], Reverted InvalidBinding)
   \<and> transact toy_ext (exec_all toy_ext deployed [RegisterBinding 7 1000 17 18 19])
         (RequestCountDecryption 7 1000 5 2)
       = (exec_all toy_ext deployed [RegisterBinding 7 1000 17 18 19], Reverted NotFound)"
proof -
  have h: "2 \<notin> set (created_bindings (trace toy_ext deployed [RegisterBinding 7 1000 17 18 19]))"
    by (simp add: created_bindings_def run_simps)
  from request_unknown_binding_reverts [OF h, of 7 1000 5] h show ?thesis by blast
qed

text \<open>
  C10: \<open>isTaskCompleted\<close> is a total function of the storage and a task id. After any
  sequence of calls on the freshly deployed contract it returns false for every task id
  that no decryption request returned, which is also what it returns for a pending task.
\<close>

theorem unknown_task_reads_pending:
  assumes "t \<notin> set (opened_tasks (trace e deployed cs))"
  shows "isTaskCompleted (exec_all e deployed cs) t = False"
proof -
  have "never_opened deployed t"
    by (simp add: never_opened_def deployed_def zero_task_def)
  from never_opened_after_calls [OF this assms] show ?thesis
    by (simp add: never_opened_def isTaskCompleted_def)
qed

theorem unknown_task_reads_pending_witness:
  "1 \<notin> set (opened_tasks (trace toy_ext deployed
          [RegisterBinding 7 1000 17 18 19, RequestBindingDecryption 7 1000 5 1,
           HandleDecryption 5 [] (be_bytes (5 :: uint256))]))
   \<and> isTaskCompleted (exec_all toy_ext deployed
          [RegisterBinding 7 1000 17 18 19, RequestBindingDecryption 7 1000 5 1,
           HandleDecryption 5 [] (be_bytes (5 :: uint256))]) 1 = False
   \<and> isTaskCompleted one_requested 244 = False"
proof -
  have h: "1 \<notin> set (opened_tasks (trace toy_ext deployed
          [RegisterBinding 7 1000 17 18 19, RequestBindingDecryption 7 1000 5 1,
           HandleDecryption 5 [] (be_bytes (5 :: uint256))]))"
    by (simp add: opened_tasks_def run_simps)
  have pending: "isTaskCompleted one_requested 244 = False"
    by (simp add: one_requested_def isTaskCompleted_def run_simps)
  from unknown_task_reads_pending [OF h] h pending show ?thesis by blast
qed

text \<open>
  C4, as stated, fails: account 7 requests decryption of binding 1 twice in the block
  with timestamp 1000 (the oracle answers 5 and 6). Both requests succeed and return the
  same task id.
\<close>

theorem same_inputs_same_task_id:
  "trace toy_ext deployed
     [RegisterBinding 7 1000 17 18 19, RequestBindingDecryption 7 1000 5 1,
      RequestBindingDecryption 7 1000 6 1] =
   [(RegisterBinding 7 1000 17 18 19, Returned 1),
    (RequestBindingDecryption 7 1000 5 1, Returned 244),
    (RequestBindingDecryption 7 1000 6 1, Returned 244)]"
  by (simp add: run_simps)

text \<open>
  C4, amended: the task id a successful request returns is the digest of the packed
  \<open>(bindingId, timestamp, sender)\<close>, for a count request of the packed
  \<open>("count", bindingId, timestamp)\<close>, and the request stores a fresh pending task under
  that id in place of whatever was there. The packing is injective. So two requests get
  different ids exactly when their digests differ; requests with the same values get the
  same id, and the later one overwrites the task of the earlier one.
\<close>

theorem task_id_is_digest_of_inputs:
  "(requestBindingDecryption e sender now reqId bId s = Inr (t, s') \<longrightarrow>
      t = keccak256 e (encodePacked_binding bId now sender)
      \<and> tasks s' = (tasks s)(t := \<lparr>task_id = t, bindingId = bId, requester = sender,
                                   completed = False, task_createdAt = now\<rparr>))
   \<and> (requestCountDecryption e sender now reqId bId s = Inr (t, s') \<longrightarrow>
      t = keccak256 e (encodePacked_count bId now)
      \<and> tasks s' = (tasks s)(t := \<lparr>task_id = t, bindingId = bId, requester = sender,
                                   completed = False, task_createdAt = now\<rparr>))
   \<and> (encodePacked_binding bId now sender = encodePacked_binding bId' now' sender'
        \<longleftrightarrow> bId = bId' \<and> now = now' \<and> sender = sender')
   \<and> (encodePacked_count bId now = encodePacked_count bId' now'
        \<longleftrightarrow> bId = bId' \<and> now = now')"
proof -
  have a: "requestBindingDecryption e sender now reqId bId s = Inr (t, s') \<longrightarrow>
      t = keccak256 e (encodePacked_binding bId now sender)
      \<and> tasks s' = (tasks s)(t := \<lparr>task_id = t, bindingId = bId, requester = sender,
                                   completed = False, task_createdAt = now\<rparr>)"
    by (auto simp: requestBindingDecryption_def Let_def split: if_splits)
  have b: "requestCountDecryption e sender now reqId bId s = Inr (t, s') \<longrightarrow>
      t = keccak256 e (encodePacked_count bId now)
      \<and> tasks s' = (tasks s)(t := \<lparr>task_id = t, bindingId = bId, requester = sender,
                                   completed = False, task_createdAt = now\<rparr>)"
    by (auto simp: requestCountDecryption_def Let_def split: if_splits)
  from a b encodePacked_binding_inj [of bId now sender bId' now' sender']
    encodePacked_count_inj [of bId now bId' now']
  show ?thesis by blast
qed

theorem task_id_is_digest_of_inputs_witness:
  "requestBindingDecryption toy_ext 7 1000 5 1 one_registered = Inr (244, one_requested)
   \<and> 244 = keccak256 toy_ext (encodePacked_binding 1 1000 7)
   \<and> tasks one_requested = (tasks one_registered)(244 :=
        \<lparr>task_id = 244, bindingId = 1, requester = 7, completed = False, task_createdAt = 1000\<rparr>)
   \<and> requestCountDecryption toy_ext 7 1000 5 1 count_submitted = Inr (790, count_requested)
   \<and> 790 = keccak256 toy_ext (encodePacked_count 1 1000)
   \<and> tasks count_requested = (tasks count_submitted)(790 :=
        \<lparr>task_id = 790, bindingId = 1, requester = 7, completed = False, task_createdAt = 1000\<rparr>)"
  using task_id_is_digest_of_inputs [of toy_ext 7 1000 5 1 one_registered 244 one_requested]
    task_id_is_digest_of_inputs [of toy_ext 7 1000 5 1 count_submitted 790 count_requested]
    request_one_registered request_count_submitted
  by blast

text \<open>
  C5, as stated, fails: after the task with id 244 has been completed, account 7 requests
  the same binding again in the same block. The request returns 244 again and stores a
  fresh task record there, so the completion flag of task 244 goes from true to false.
\<close>

theorem completion_flag_reset_by_request:
  "isTaskCompleted one_completed 244
   \<and> transact toy_ext one_completed (RequestBindingDecryption 7 1000 6 1)
       = (one_reopened, Returned 244)
   \<and> \<not> isTaskCompleted one_reopened 244"
proof -
  have "isTaskCompleted one_completed 244"
    by (simp add: one_completed_def isTaskCompleted_def run_simps)
  moreover have "\<not> isTaskCompleted one_reopened 244"
    by (simp add: one_reopened_def isTaskCompleted_def run_simps)
  ultimately show ?thesis using reopen_one_completed by simp
qed

text \<open>
  C5, amended: in any single call, the completion flag of a task goes from false to true
  only if the call is a completion callback that succeeded, whose proof passed the
  signature check and whose request identifier mapped to that task before the call; and
  it goes from true to false only if the call is a decryption request that succeeded and
  returned that task's id.
\<close>

theorem completion_flag_changes:
  assumes "transact e s c = (s', out)"
  shows "(\<not> isTaskCompleted s t \<and> isTaskCompleted s' t \<longrightarrow>
            (\<exists>r cl p. (c = HandleDecryption r cl p \<or> c = HandleCountDecryption r cl p)
                \<and> checkSignatures e r cl p \<and> requestToTaskId s r = t \<and> out = Done))
       \<and> (isTaskCompleted s t \<and> \<not> isTaskCompleted s' t \<longrightarrow> requests c \<and> out = Returned t)"
  using assms
  by (cases c) (auto simp: isTaskCompleted_def call_defs Let_def split: if_splits option.splits)

theorem completion_flag_changes_witness:
  "transact toy_ext one_requested (HandleDecryption 5 [] (be_bytes (5 :: uint256)))
     = (one_completed, Done)
   \<and> \<not> isTaskCompleted one_requested 244 \<and> isTaskCompleted one_completed 244
   \<and> checkSignatures toy_ext 5 [] (be_bytes (5 :: uint256))
   \<and> requestToTaskId one_requested 5 = 244
   \<and> transact toy_ext one_completed (RequestBindingDecryption 7 1000 6 1)
       = (one_reopened, Returned 244)
   \<and> isTaskCompleted one_completed 244 \<and> \<not> isTaskCompleted one_reopened 244
   \<and> requests (RequestBindingDecryption 7 1000 6 1)"
proof -
  have p1: "\<not> isTaskCompleted one_requested 244"
    by (simp add: one_requested_def isTaskCompleted_def run_simps)
  have p2: "isTaskCompleted one_completed 244"
    by (simp add: one_completed_def isTaskCompleted_def run_simps)
  have p3: "\<not> isTaskCompleted one_reopened 244"
    by (simp add: one_reopened_def isTaskCompleted_def run_simps)
  from completion_flag_changes [OF complete_one_requested, of 244] p1 p2
  have set: "checkSignatures toy_ext 5 [] (be_bytes (5 :: uint256))
             \<and> requestToTaskId one_requested 5 = 244"
    by auto
  from completion_flag_changes [OF reopen_one_completed, of 244] p2 p3
  have reset: "requests (RequestBindingDecryption 7 1000 6 1)"
    by blast
  from set reset p1 p2 p3 complete_one_requested reopen_one_completed
  show ?thesis by blast
qed

end
